theory Spec2Isabelle
  imports Complex_Main "HOL-Library.Word" "HOL-Library.Sublist"
begin

section \<open>The SpaceDJAgent component of src/App.tsx\<close>

text \<open>
  The component keeps its data in React state cells and refs. One event handler runs at a
  time and the component re-renders between two handlers, so a handler reads the cells as
  the previous handler left them. Each handler is therefore a function from the state to
  the state. A JavaScript \<open>number\<close> is a \<open>real\<close>, a \<open>Uint8Array\<close> a list of
  8-bit words, a nullable reference an \<open>option\<close>.
\<close>

subsection \<open>Data\<close>

text \<open>The two properties of a browser \<open>File\<close> that the component reads.\<close>

record File =
  file_name :: string
  file_type :: string

text \<open>\<open>interface Track\<close> (lines 4-10).\<close>

record Track =
  track_id :: string
  track_name :: string
  track_file :: File
  track_url :: string
  track_duration :: real

text \<open>
  The hidden \<open>audio\<close> element behind \<open>audioRef\<close>: the properties the handlers read
  and write, and the log of the \<open>play()\<close> and \<open>pause()\<close> calls made on it.
\<close>

datatype media_cmd = Play | Pause

record HTMLAudioElement =
  currentTime :: real
  el_duration :: real
  el_volume :: real
  calls :: "media_cmd list"

definition play :: "HTMLAudioElement \<Rightarrow> HTMLAudioElement" where
  "play a = a\<lparr>calls := calls a @ [Play]\<rparr>"

definition pause :: "HTMLAudioElement \<Rightarrow> HTMLAudioElement" where
  "pause a = a\<lparr>calls := calls a @ [Pause]\<rparr>"

text \<open>
  The analysis graph of \<open>initAudioContext\<close>. Of the analyser only \<open>fftSize\<close> matters;
  the platform derives \<open>frequencyBinCount\<close> from it as half the transform window.
\<close>

record AnalyserNode =
  fftSize :: nat

definition frequencyBinCount :: "AnalyserNode \<Rightarrow> nat" where
  "frequencyBinCount an = fftSize an div 2"

datatype AudioContext = AudioContext

datatype MediaElementAudioSourceNode = MediaElementAudioSourceNode

text \<open>
  The state cells (lines 13-20) and refs (lines 21-26). \<open>timeouts\<close> counts the callbacks
  that \<open>playTrack\<close> has handed to \<open>setTimeout\<close> and that have not run yet;
  \<open>loading\<close> holds the \<open>Audio\<close> objects of \<open>handleFileUpload\<close> whose
  \<open>loadedmetadata\<close> listener has not fired yet, each with its file and object URL.
\<close>

record state =
  tracks :: "Track list"
  currentTrack :: "Track option"
  isPlaying :: bool
  progress :: real
  volume :: real
  isDragging :: bool
  isLive :: bool
  waveformData :: "real list"
  audioRef :: "HTMLAudioElement option"
  analyserRef :: "AnalyserNode option"
  audioContextRef :: "AudioContext option"
  sourceRef :: "MediaElementAudioSourceNode option"
  animationRef :: nat
  timeouts :: nat
  loading :: "(File \<times> string) list"

text \<open>
  The state after the first render, with the mounted \<open>audio\<close> element \<open>a\<close> in
  \<open>audioRef\<close>.
\<close>

definition init :: "HTMLAudioElement \<Rightarrow> state" where
  "init a =
     \<lparr>tracks = [], currentTrack = None, isPlaying = False, progress = 0, volume = 0.8,
      isDragging = False, isLive = False, waveformData = replicate 64 0,
      audioRef = Some a, analyserRef = None, audioContextRef = None, sourceRef = None,
      animationRef = 0, timeouts = 0, loading = []\<rparr>"

subsection \<open>Analysis graph and spectrum sampling (lines 28-46)\<close>

definition initAudioContext :: "state \<Rightarrow> state" where
  "initAudioContext s =
     (if audioContextRef s = None \<and> audioRef s \<noteq> None
      then s\<lparr>audioContextRef := Some AudioContext,
             analyserRef := Some \<lparr>fftSize = 128\<rparr>,
             sourceRef := Some MediaElementAudioSourceNode\<rparr>
      else s)"

text \<open>
  \<open>getByteFrequencyData\<close> overwrites the array with the analyser's current byte
  magnitudes \<open>bins\<close>, one per frequency bin; elements beyond the bin count keep their
  value.
\<close>

definition getByteFrequencyData ::
  "AnalyserNode \<Rightarrow> (nat \<Rightarrow> 8 word) \<Rightarrow> 8 word list \<Rightarrow> 8 word list" where
  "getByteFrequencyData an bins dataArray =
     map (\<lambda>i. if i < frequencyBinCount an then bins i else dataArray ! i)
       [0..<length dataArray]"

definition Array_from :: "8 word list \<Rightarrow> real list" where
  "Array_from dataArray = map (\<lambda>b. real (unat b)) dataArray"

text \<open>
  One animation frame: \<open>bins\<close> is what the analyser measures at that moment and \<open>h\<close>
  the handle that \<open>requestAnimationFrame\<close> returns for the next frame.
\<close>

definition updateWaveform :: "(nat \<Rightarrow> 8 word) \<Rightarrow> nat \<Rightarrow> state \<Rightarrow> state" where
  "updateWaveform bins h s =
     (case analyserRef s of
        Some an \<Rightarrow>
          if isPlaying s
          then s\<lparr>waveformData :=
                   Array_from (getByteFrequencyData an bins
                     (replicate (frequencyBinCount an) 0))\<rparr>
          else s
      | None \<Rightarrow> s)\<lparr>animationRef := h\<rparr>"

subsection \<open>Upload (lines 55-75)\<close>

text \<open>The filter of line 60.\<close>

definition accepts :: "File \<Rightarrow> bool" where
  "accepts file \<longleftrightarrow>
     file_type file = ''audio/mpeg'' \<or> file_type file = ''audio/mp3''
     \<or> suffix ''.mp3'' (file_name file)"

text \<open>\<open>String.prototype.replace\<close> with a string pattern: the first occurrence only.\<close>

fun replace_first :: "string \<Rightarrow> string \<Rightarrow> string \<Rightarrow> string" where
  "replace_first pat rep [] = (if pat = [] then rep else [])"
| "replace_first pat rep (c # cs) =
     (if prefix pat (c # cs) then rep @ drop (length pat) (c # cs)
      else c # replace_first pat rep cs)"

text \<open>
  The body of the \<open>forEach\<close> for one file; \<open>createObjectURL\<close> is the platform's
  \<open>URL.createObjectURL\<close>.
\<close>

definition uploadOne :: "(File \<Rightarrow> string) \<Rightarrow> File \<Rightarrow> state \<Rightarrow> state" where
  "uploadOne createObjectURL file s =
     (if accepts file
      then s\<lparr>loading := loading s @ [(file, createObjectURL file)]\<rparr>
      else s)"

definition handleFileUpload ::
  "(File \<Rightarrow> string) \<Rightarrow> File list option \<Rightarrow> state \<Rightarrow> state" where
  "handleFileUpload createObjectURL files s =
     (case files of
        None \<Rightarrow> s
      | Some fs \<Rightarrow> fold (uploadOne createObjectURL) fs s)"

text \<open>
  The \<open>loadedmetadata\<close> listener of the \<open>k\<close>-th loading \<open>Audio\<close> object, which
  reports duration \<open>d\<close>; \<open>now\<close> and \<open>rnd\<close> are the renderings of \<open>Date.now()\<close>
  and \<open>Math.random()\<close>. The event fires once for an object, which then stops loading.
\<close>

definition onLoadedMetadata :: "nat \<Rightarrow> real \<Rightarrow> string \<Rightarrow> string \<Rightarrow> state \<Rightarrow> state" where
  "onLoadedMetadata k d now rnd s =
     (if k < length (loading s)
      then
        (case loading s ! k of
           (file, url) \<Rightarrow>
             s\<lparr>tracks := tracks s @
                  [\<lparr>track_id = now @ ''-'' @ rnd,
                    track_name = replace_first ''.mp3'' [] (file_name file),
                    track_file = file, track_url = url, track_duration = d\<rparr>],
               loading := take k (loading s) @ drop (Suc k) (loading s)\<rparr>)
      else s)"

subsection \<open>Playback controller (lines 77-140 and 498-503)\<close>

definition togglePlay :: "state \<Rightarrow> state" where
  "togglePlay s =
     (case audioRef s of
        None \<Rightarrow> s
      | Some a \<Rightarrow>
          (if isPlaying s then s\<lparr>audioRef := Some (pause a)\<rparr>
           else (initAudioContext s)\<lparr>audioRef := Some (play a)\<rparr>)
          \<lparr>isPlaying := \<not> isPlaying s\<rparr>)"

text \<open>
  \<open>currentTrack?.id === track.id\<close> is false when there is no current track, since
  \<open>undefined\<close> is not a string.
\<close>

definition is_current :: "state \<Rightarrow> string \<Rightarrow> bool" where
  "is_current s i = (case currentTrack s of None \<Rightarrow> False | Some c \<Rightarrow> track_id c = i)"

definition playTrack :: "Track \<Rightarrow> state \<Rightarrow> state" where
  "playTrack track s =
     (if is_current s (track_id track) then togglePlay s
      else s\<lparr>currentTrack := Some track, isPlaying := True,
             timeouts := Suc (timeouts s)\<rparr>)"

text \<open>The callback of the \<open>setTimeout\<close> in \<open>playTrack\<close> (lines 83-88).\<close>

definition playTimeout :: "state \<Rightarrow> state" where
  "playTimeout s =
     (case audioRef s of
        None \<Rightarrow> s
      | Some a \<Rightarrow> (initAudioContext s)\<lparr>audioRef := Some (play a)\<rparr>)"

text \<open>The timer runs one pending callback, if there is one.\<close>

definition timeoutFire :: "state \<Rightarrow> state" where
  "timeoutFire s =
     (if 0 < timeouts s then playTimeout (s\<lparr>timeouts := timeouts s - 1\<rparr>) else s)"

text \<open>
  In \<open>handleTimeUpdate\<close> the quotient is a number only for a duration other than zero
  (JavaScript gives \<open>NaN\<close> or \<open>Infinity\<close> there); no statement below reads the
  progress that it stores.
\<close>

definition handleTimeUpdate :: "state \<Rightarrow> state" where
  "handleTimeUpdate s =
     (case audioRef s of
        None \<Rightarrow> s
      | Some a \<Rightarrow>
          if \<not> isDragging s then s\<lparr>progress := currentTime a / el_duration a * 100\<rparr>
          else s)"

text \<open>
  The click on the progress bar: \<open>clientX\<close> of the mouse event, and \<open>left\<close> and
  \<open>width\<close> of the bounding rectangle of the bar. For a bar of width zero JavaScript
  computes no number; the statement on seeking is about a bar of positive width.
\<close>

record MouseEvent =
  clientX :: real
  rect_left :: real
  rect_width :: real

definition handleSeek :: "MouseEvent \<Rightarrow> state \<Rightarrow> state" where
  "handleSeek e s =
     (case audioRef s of
        None \<Rightarrow> s
      | Some a \<Rightarrow>
          (let x = clientX e - rect_left e;
               percent = x / rect_width e
           in s\<lparr>audioRef := Some (a\<lparr>currentTime := percent * el_duration a\<rparr>),
                progress := percent * 100\<rparr>))"

text \<open>\<open>newVolume\<close> is \<open>parseFloat(e.target.value)\<close> of the range input.\<close>

definition handleVolumeChange :: "real \<Rightarrow> state \<Rightarrow> state" where
  "handleVolumeChange newVolume s =
     (let s' = s\<lparr>volume := newVolume\<rparr>
      in case audioRef s' of
           None \<Rightarrow> s'
         | Some a \<Rightarrow> s'\<lparr>audioRef := Some (a\<lparr>el_volume := newVolume\<rparr>)\<rparr>)"

definition removeTrack :: "string \<Rightarrow> state \<Rightarrow> state" where
  "removeTrack i s =
     (let s' = s\<lparr>tracks := filter (\<lambda>t. track_id t \<noteq> i) (tracks s)\<rparr>
      in if is_current s i then s'\<lparr>currentTrack := None, isPlaying := False\<rparr> else s')"

text \<open>The \<open>onEnded\<close> handler of the \<open>audio\<close> element (line 502).\<close>

definition onEnded :: "state \<Rightarrow> state" where
  "onEnded s = s\<lparr>isPlaying := False\<rparr>"

text \<open>The "GO LIVE" button (line 224).\<close>

definition toggleLive :: "state \<Rightarrow> state" where
  "toggleLive s = s\<lparr>isLive := \<not> isLive s\<rparr>"

subsection \<open>Visualizer (lines 255-272)\<close>

text \<open>
  One bar: the \<open>style\<close> properties and the height that \<open>animate\<close> drives the bar to.
  Heights are percentages.
\<close>

record bar =
  style_height :: real
  style_opacity :: real
  glow :: bool
  animate_height :: real

definition renderBar :: "bool \<Rightarrow> real \<Rightarrow> bar" where
  "renderBar playing v =
     \<lparr>style_height = max 4 ((v / 255) * 100),
      style_opacity = 0.7 + (v / 255) * 0.3,
      glow = (v > 128),
      animate_height = (if playing then max 4 ((v / 255) * 100) else 4)\<rparr>"

definition renderBars :: "bool \<Rightarrow> real list \<Rightarrow> bar list" where
  "renderBars playing snapshot = map (renderBar playing) snapshot"

subsection \<open>Events\<close>

text \<open>
  Everything that can happen to the component after it has mounted: the handlers above,
  an animation frame, the timer, and \<open>MediaProgress\<close>, by which the platform moves the
  position of the \<open>audio\<close> element or learns the duration of its source.
\<close>

datatype event =
    Upload "File \<Rightarrow> string" "File list option"
  | LoadedMetadata nat real string string
  | PlayTrack Track
  | TogglePlay
  | TimeoutFire
  | TimeUpdate
  | Seek MouseEvent
  | VolumeChange real
  | RemoveTrack string
  | Ended
  | ToggleLive
  | Frame "nat \<Rightarrow> 8 word" nat
  | MediaProgress real real

fun step :: "event \<Rightarrow> state \<Rightarrow> state" where
  "step (Upload mk files) s = handleFileUpload mk files s"
| "step (LoadedMetadata k d now rnd) s = onLoadedMetadata k d now rnd s"
| "step (PlayTrack t) s = playTrack t s"
| "step TogglePlay s = togglePlay s"
| "step TimeoutFire s = timeoutFire s"
| "step TimeUpdate s = handleTimeUpdate s"
| "step (Seek e) s = handleSeek e s"
| "step (VolumeChange v) s = handleVolumeChange v s"
| "step (RemoveTrack i) s = removeTrack i s"
| "step Ended s = onEnded s"
| "step ToggleLive s = toggleLive s"
| "step (Frame bins h) s = updateWaveform bins h s"
| "step (MediaProgress t d) s =
     (case audioRef s of
        None \<Rightarrow> s
      | Some a \<Rightarrow> s\<lparr>audioRef := Some (a\<lparr>currentTime := t, el_duration := d\<rparr>)\<rparr>)"

fun run :: "event list \<Rightarrow> state \<Rightarrow> state" where
  "run [] s = s"
| "run (e # es) s = run es (step e s)"

text \<open>Concrete data for the examples.\<close>

definition audio0 :: HTMLAudioElement where
  "audio0 = \<lparr>currentTime = 0, el_duration = 180, el_volume = 1, calls = []\<rparr>"

definition mp3_file :: File where
  "mp3_file = \<lparr>file_name = ''track1.mp3'', file_type = ''audio/mpeg''\<rparr>"

definition wav_file :: File where
  "wav_file = \<lparr>file_name = ''take.wav'', file_type = ''audio/wav''\<rparr>"

definition odd_file :: File where
  "odd_file = \<lparr>file_name = ''song.bin'', file_type = ''audio/mp3''\<rparr>"

definition track1 :: Track where
  "track1 =
     \<lparr>track_id = ''1-0.5'', track_name = ''track1'', track_file = mp3_file,
      track_url = ''blob:1'', track_duration = 180\<rparr>"

definition url0 :: "File \<Rightarrow> string" where
  "url0 f = ''blob:1''"

definition bins7 :: "nat \<Rightarrow> 8 word" where
  "bins7 i = 7"

definition click_mid :: MouseEvent where
  "click_mid = \<lparr>clientX = 150, rect_left = 50, rect_width = 200\<rparr>"

text \<open>The registry after \<open>track1.mp3\<close> has been uploaded and its metadata has loaded.\<close>

definition loaded1 :: state where
  "loaded1 =
     run [Upload url0 (Some [mp3_file]), LoadedMetadata 0 180 ''1'' ''0.5''] (init audio0)"

text \<open>The same, with the track selected and the timer of \<open>playTrack\<close> run.\<close>

definition playing1 :: state where
  "playing1 = run [PlayTrack track1, TimeoutFire] loaded1"

subsection \<open>Invariants\<close>

text \<open>
  The snapshot has 64 entries between 0 and 255, and an analyser, once created, has a
  transform window of 128 samples.
\<close>

definition spectrum_ok :: "state \<Rightarrow> bool" where
  "spectrum_ok s \<longleftrightarrow>
     length (waveformData s) = 64
     \<and> (\<forall>v \<in> set (waveformData s). 0 \<le> v \<and> v \<le> 255)
     \<and> (\<forall>an. analyserRef s = Some an \<longrightarrow> fftSize an = 128)"

text \<open>Every track of the registry and every loading file has passed the filter.\<close>

definition admitted :: "state \<Rightarrow> bool" where
  "admitted s \<longleftrightarrow>
     (\<forall>t \<in> set (tracks s). accepts (track_file t))
     \<and> (\<forall>p \<in> set (loading s). accepts (fst p))"

section \<open>Auxiliary facts\<close>

lemma fold_uploadOne:
  "fold (uploadOne mk) fs s =
     s\<lparr>loading := loading s @ map (\<lambda>f. (f, mk f)) (filter accepts fs)\<rparr>"
  by (induction fs arbitrary: s) (simp_all add: uploadOne_def)

lemma loaded1_eq: "loaded1 = (init audio0)\<lparr>tracks := [track1]\<rparr>"
  by (simp add: loaded1_def handleFileUpload_def uploadOne_def accepts_def mp3_file_def
      onLoadedMetadata_def init_def track1_def url0_def)

lemma playing1_eq:
  "playing1 =
     (init audio0)
       \<lparr>tracks := [track1], currentTrack := Some track1, isPlaying := True,
        audioRef := Some (audio0\<lparr>calls := [Play]\<rparr>),
        analyserRef := Some \<lparr>fftSize = 128\<rparr>, audioContextRef := Some AudioContext,
        sourceRef := Some MediaElementAudioSourceNode\<rparr>"
  by (simp add: playing1_def loaded1_eq playTrack_def is_current_def timeoutFire_def
      playTimeout_def initAudioContext_def play_def init_def audio0_def)

subsection \<open>Bytes of the analyser\<close>

lemma byte_range: "0 \<le> real (unat (b :: 8 word)) \<and> real (unat b) \<le> 255"
proof (rule conjI)
  show "0 \<le> real (unat b)" by (rule of_nat_0_le_iff)
next
  have "unat b < 2 ^ 8" using unsigned_less [of b, where ?'a = nat] by simp
  then have "unat b \<le> 255" by simp
  then have "real (unat b) \<le> real 255" by (rule iffD2 [OF of_nat_le_iff])
  then show "real (unat b) \<le> 255" by (simp only: of_nat_numeral)
qed

lemma Array_from_range: "v \<in> set (Array_from bs) \<Longrightarrow> 0 \<le> v \<and> v \<le> 255"
proof -
  assume "v \<in> set (Array_from bs)"
  then have "v \<in> (\<lambda>b. real (unat b)) ` set bs"
    unfolding Array_from_def by (simp only: set_map)
  then obtain b :: "8 word" where "v = real (unat b)" by (rule imageE)
  then show ?thesis using byte_range [of b] by (simp only:)
qed

lemma length_Array_from: "length (Array_from bs) = length bs"
  by (simp add: Array_from_def)

lemma length_getByteFrequencyData: "length (getByteFrequencyData an bins arr) = length arr"
  by (simp add: getByteFrequencyData_def)

subsection \<open>The snapshot invariant is kept by every event\<close>

lemma spectrum_ok_updateWaveform: "spectrum_ok s \<Longrightarrow> spectrum_ok (updateWaveform bins h s)"
  by (auto simp add: spectrum_ok_def updateWaveform_def length_Array_from
      length_getByteFrequencyData frequencyBinCount_def dest: Array_from_range
      split: option.splits)

lemma spectrum_ok_togglePlay: "spectrum_ok s \<Longrightarrow> spectrum_ok (togglePlay s)"
  by (auto simp add: spectrum_ok_def togglePlay_def initAudioContext_def split: option.splits)

lemma spectrum_ok_step: "spectrum_ok s \<Longrightarrow> spectrum_ok (step e s)"
proof (cases e)
  case (Frame bins h)
  assume "spectrum_ok s"
  then show ?thesis using Frame by (simp add: spectrum_ok_updateWaveform)
next
  case TogglePlay
  assume "spectrum_ok s"
  then show ?thesis using TogglePlay by (simp add: spectrum_ok_togglePlay)
next
  case (PlayTrack t)
  assume "spectrum_ok s"
  then show ?thesis using PlayTrack spectrum_ok_togglePlay [of s]
    by (simp add: playTrack_def) (simp add: spectrum_ok_def)
next
  case TimeoutFire
  assume "spectrum_ok s"
  then show ?thesis using TimeoutFire
    by (auto simp add: spectrum_ok_def timeoutFire_def playTimeout_def initAudioContext_def
        split: option.splits)
qed (auto simp add: spectrum_ok_def handleFileUpload_def fold_uploadOne onLoadedMetadata_def
    handleTimeUpdate_def handleSeek_def handleVolumeChange_def removeTrack_def onEnded_def
    toggleLive_def Let_def split: option.splits prod.splits)

lemma spectrum_ok_run: "spectrum_ok s \<Longrightarrow> spectrum_ok (run es s)"
  by (induction es arbitrary: s) (simp_all add: spectrum_ok_step)

lemma spectrum_ok_init: "spectrum_ok (init a)"
  by (simp add: spectrum_ok_def init_def)

subsection \<open>Only filtered files reach the registry\<close>

lemma admitted_step: "admitted s \<Longrightarrow> admitted (step e s)"
proof (cases e)
  case (Upload mk files)
  assume "admitted s"
  then show ?thesis using Upload
    by (auto simp add: admitted_def handleFileUpload_def fold_uploadOne split: option.splits)
next
  case (LoadedMetadata k d now rnd)
  assume a: "admitted s"
  show ?thesis
  proof (cases "k < length (loading s)")
    case False
    then show ?thesis using a LoadedMetadata by (simp add: onLoadedMetadata_def)
  next
    case True
    obtain f u where fu: "loading s ! k = (f, u)" by (cases "loading s ! k")
    have "loading s ! k \<in> set (loading s)" using True by (rule nth_mem)
    then have k: "accepts f" using a fu by (auto simp add: admitted_def)
    have rest: "set (take k (loading s) @ drop (Suc k) (loading s)) \<subseteq> set (loading s)"
      using set_take_subset [of k "loading s"] set_drop_subset [of "Suc k" "loading s"]
      by simp
    have "step e s =
        s\<lparr>tracks := tracks s @
             [\<lparr>track_id = now @ ''-'' @ rnd,
               track_name = replace_first ''.mp3'' [] (file_name f),
               track_file = f, track_url = u, track_duration = d\<rparr>],
          loading := take k (loading s) @ drop (Suc k) (loading s)\<rparr>"
      using True fu LoadedMetadata by (simp add: onLoadedMetadata_def)
    then show ?thesis using a k rest by (auto simp add: admitted_def)
  qed
next
  case (PlayTrack t)
  assume "admitted s"
  then show ?thesis using PlayTrack
    by (auto simp add: admitted_def playTrack_def togglePlay_def initAudioContext_def
        split: option.splits)
next
  case TogglePlay
  assume "admitted s"
  then show ?thesis using TogglePlay
    by (auto simp add: admitted_def togglePlay_def initAudioContext_def split: option.splits)
next
  case TimeoutFire
  assume "admitted s"
  then show ?thesis using TimeoutFire
    by (auto simp add: admitted_def timeoutFire_def playTimeout_def initAudioContext_def
        split: option.splits)
next
  case (Frame bins h)
  assume "admitted s"
  then show ?thesis using Frame
    by (auto simp add: admitted_def updateWaveform_def split: option.splits)
qed (auto simp add: admitted_def handleTimeUpdate_def handleSeek_def handleVolumeChange_def
    removeTrack_def onEnded_def toggleLive_def Let_def split: option.splits)

lemma admitted_run: "admitted s \<Longrightarrow> admitted (run es s)"
  by (induction es arbitrary: s) (simp_all add: admitted_step)

lemma admitted_init: "admitted (init a)"
  by (simp add: admitted_def init_def)

section \<open>The claims\<close>

subsection \<open>Spectrum snapshot\<close>

text \<open>
  C1, as the specification states it, gives the snapshot 32 entries. The initial snapshot
  is \<open>new Array(64).fill(0)\<close>, and a sampled one has \<open>frequencyBinCount\<close> entries,
  half of the \<open>fftSize\<close> of 128: both have 64 entries, before playback and after a
  sampled frame.
\<close>

theorem snapshot_length_32_counterexample:
  "length (waveformData (init audio0)) \<noteq> 32
   \<and> length (waveformData (run [Frame bins7 1] playing1)) \<noteq> 32"
  by (simp add: playing1_eq init_def updateWaveform_def length_Array_from
      length_getByteFrequencyData frequencyBinCount_def)

text \<open>
  C1 (amended): in the initial state and after every sequence of events the spectrum
  snapshot has length 64, whatever the playback state, and each of its values lies
  between 0 and 255.
\<close>

theorem snapshot_length_64:
  "length (waveformData (init a)) = 64
   \<and> length (waveformData (run es (init a))) = 64
   \<and> (\<forall>v \<in> set (waveformData (run es (init a))). 0 \<le> v \<and> v \<le> 255)"
  using spectrum_ok_run [OF spectrum_ok_init, of es a]
  by (simp add: spectrum_ok_def init_def)

theorem snapshot_length_64_witness:
  "length (waveformData (run [PlayTrack track1, TimeoutFire, Frame bins7 1] (init audio0))) = 64
   \<and> waveformData (run [PlayTrack track1, TimeoutFire, Frame bins7 1] (init audio0)) ! 0 = 7
   \<and> 0 \<le> waveformData (run [PlayTrack track1, TimeoutFire, Frame bins7 1] (init audio0)) ! 63
   \<and> waveformData (run [PlayTrack track1, TimeoutFire, Frame bins7 1] (init audio0)) ! 63 \<le> 255"
proof -
  let ?w = "waveformData (run [PlayTrack track1, TimeoutFire, Frame bins7 1] (init audio0))"
  have first: "?w ! 0 = 7"
    by (simp add: init_def playTrack_def is_current_def timeoutFire_def playTimeout_def
        initAudioContext_def updateWaveform_def getByteFrequencyData_def
        frequencyBinCount_def Array_from_def bins7_def)
  have len: "length ?w = 64"
    using snapshot_length_64 [of audio0 "[PlayTrack track1, TimeoutFire, Frame bins7 1]"]
    by blast
  have all: "\<forall>v \<in> set ?w. 0 \<le> v \<and> v \<le> 255"
    using snapshot_length_64 [of audio0 "[PlayTrack track1, TimeoutFire, Frame bins7 1]"]
    by blast
  have "?w ! 63 \<in> set ?w" using len by (intro nth_mem) simp
  then have "0 \<le> ?w ! 63 \<and> ?w ! 63 \<le> 255" using all by blast
  then show ?thesis using first len by blast
qed

subsection \<open>Selecting a track\<close>

text \<open>
  C2: selecting a track whose id is that of the current track is \<open>togglePlay\<close> and leaves
  the current track as it is. Selecting any other track makes it the current track, sets
  \<open>isPlaying\<close> and schedules the timer callback; when the callback runs, a \<open>play()\<close>
  call is made on the media element, and the state is still playing that track.
\<close>

theorem select_track:
  "(is_current s (track_id t) \<longrightarrow>
      playTrack t s = togglePlay s \<and> currentTrack (playTrack t s) = currentTrack s)
   \<and> (\<not> is_current s (track_id t) \<longrightarrow>
      currentTrack (playTrack t s) = Some t
      \<and> isPlaying (playTrack t s)
      \<and> timeouts (playTrack t s) = Suc (timeouts s)
      \<and> (\<forall>a. audioRef s = Some a \<longrightarrow>
            audioRef (timeoutFire (playTrack t s)) = Some (a\<lparr>calls := calls a @ [Play]\<rparr>)
            \<and> currentTrack (timeoutFire (playTrack t s)) = Some t
            \<and> isPlaying (timeoutFire (playTrack t s))))"
  by (auto simp add: playTrack_def togglePlay_def timeoutFire_def playTimeout_def
      initAudioContext_def play_def split: option.splits)

theorem select_track_witness:
  "\<not> is_current loaded1 (track_id track1)
   \<and> currentTrack (playTrack track1 loaded1) = Some track1
   \<and> isPlaying (playTrack track1 loaded1)
   \<and> audioRef (timeoutFire (playTrack track1 loaded1)) = Some (audio0\<lparr>calls := [Play]\<rparr>)
   \<and> is_current playing1 (track_id track1)
   \<and> playTrack track1 playing1 = togglePlay playing1
   \<and> \<not> isPlaying (playTrack track1 playing1)"
proof -
  have n: "\<not> is_current loaded1 (track_id track1)"
    by (simp add: loaded1_eq is_current_def init_def)
  have a: "audioRef loaded1 = Some audio0"
    by (simp add: loaded1_eq init_def)
  have c: "is_current playing1 (track_id track1)"
    by (simp add: playing1_eq is_current_def init_def)
  have "calls audio0 = []" by (simp add: audio0_def)
  then have first: "currentTrack (playTrack track1 loaded1) = Some track1
      \<and> isPlaying (playTrack track1 loaded1)
      \<and> audioRef (timeoutFire (playTrack track1 loaded1)) = Some (audio0\<lparr>calls := [Play]\<rparr>)"
    using select_track [of loaded1 track1] n a by simp
  have again: "playTrack track1 playing1 = togglePlay playing1"
    using select_track [of playing1 track1] c by blast
  have "\<not> isPlaying (togglePlay playing1)"
    by (simp add: playing1_eq togglePlay_def init_def)
  then show ?thesis using n c first again by simp
qed

subsection \<open>Seeking\<close>

text \<open>
  C3: a click at fraction \<open>f\<close> of the progress bar, with \<open>f\<close> between 0 and 1, while
  the media element reports duration \<open>D\<close>, sets the position of the element to
  \<open>f * D\<close> and the progress to \<open>f * 100\<close>; the play state is neither read nor
  changed, so the result is the same playing or paused.
\<close>

theorem seek_position:
  assumes "audioRef s = Some a" and "el_duration a = D"
    and "0 < rect_width e" and "clientX e - rect_left e = f * rect_width e"
    and "0 \<le> f" and "f \<le> 1"
  shows "audioRef (handleSeek e s) = Some (a\<lparr>currentTime := f * D\<rparr>)
     \<and> progress (handleSeek e s) = f * 100
     \<and> isPlaying (handleSeek e s) = isPlaying s
     \<and> currentTrack (handleSeek e s) = currentTrack s
     \<and> handleSeek e (s\<lparr>isPlaying := b\<rparr>) = (handleSeek e s)\<lparr>isPlaying := b\<rparr>"
  using assms by (simp add: handleSeek_def Let_def)

theorem seek_position_witness:
  "audioRef playing1 = Some (audio0\<lparr>calls := [Play]\<rparr>)
   \<and> el_duration (audio0\<lparr>calls := [Play]\<rparr>) = 180
   \<and> audioRef (handleSeek click_mid playing1) =
       Some (audio0\<lparr>calls := [Play], currentTime := 90\<rparr>)
   \<and> progress (handleSeek click_mid playing1) = 50
   \<and> progress (handleSeek click_mid (playing1\<lparr>isPlaying := False\<rparr>)) = 50"
proof -
  have h1: "audioRef playing1 = Some (audio0\<lparr>calls := [Play]\<rparr>)"
    by (simp add: playing1_eq init_def)
  have h2: "el_duration (audio0\<lparr>calls := [Play]\<rparr>) = 180"
    by (simp add: audio0_def)
  have h3: "0 < rect_width click_mid" by (simp add: click_mid_def)
  have h4: "clientX click_mid - rect_left click_mid = (1 / 2) * rect_width click_mid"
    by (simp add: click_mid_def)
  have h5: "(0::real) \<le> 1 / 2" by simp
  have h6: "(1::real) / 2 \<le> 1" by simp
  show ?thesis
    using seek_position [OF h1 h2 h3 h4 h5 h6, of False] h1 h2 by simp
qed

subsection \<open>Playing implies a current track\<close>

text \<open>
  C4 says that in every state reached from the initial state by the operations,
  \<open>isPlaying\<close> implies that a current track exists. The component aims at this:
  \<open>removeTrack\<close> of the current track resets \<open>isPlaying\<close>, and the play/pause
  button belongs to the panel that is drawn for a current track only (lines 294 and 325).
  But \<open>togglePlay\<close> itself looks at the media element alone, and the panel is wrapped
  in \<open>AnimatePresence\<close> with an exit animation (lines 293-299), so its button is still
  there for a click after \<open>removeTrack\<close> has cleared the current track. That click runs
  \<open>togglePlay\<close> with the \<open>isPlaying\<close> of the last render of the panel. When the
  track was paused before it was removed, that value is false, as it is in the state
  after the removal, and the handler calls \<open>play()\<close> and sets \<open>isPlaying\<close>: the
  component is playing and has no current track. The run below is this path: from the
  state playing \<open>track1\<close>, pause, remove the track, click the button.
\<close>

theorem playing_without_current:
  "currentTrack (run [TogglePlay] playing1) = Some track1
   \<and> isPlaying (run [TogglePlay] playing1) = False
   \<and> currentTrack (run [TogglePlay, RemoveTrack (track_id track1)] playing1) = None
   \<and> isPlaying (run [TogglePlay, RemoveTrack (track_id track1)] playing1) = False
   \<and> isPlaying (run [TogglePlay, RemoveTrack (track_id track1), TogglePlay] playing1) = True
   \<and> currentTrack (run [TogglePlay, RemoveTrack (track_id track1), TogglePlay] playing1) = None
   \<and> tracks (run [TogglePlay, RemoveTrack (track_id track1), TogglePlay] playing1) = []"
  by (simp add: playing1_eq togglePlay_def removeTrack_def is_current_def
      initAudioContext_def init_def)

subsection \<open>Upload filter\<close>

text \<open>
  C5, as the specification states it, admits a file only for the type \<open>audio/mpeg\<close> or
  a name ending in \<open>.mp3\<close>. The filter has a third alternative, the type
  \<open>audio/mp3\<close>: a file of that type named \<open>song.bin\<close> starts loading and enters
  the registry once its metadata has loaded.
\<close>

theorem upload_filter_counterexample:
  "file_type odd_file \<noteq> ''audio/mpeg'' \<and> \<not> suffix ''.mp3'' (file_name odd_file)
   \<and> loading (handleFileUpload url0 (Some [odd_file]) (init audio0)) = [(odd_file, ''blob:1'')]
   \<and> map track_file
        (tracks (run [Upload url0 (Some [odd_file]), LoadedMetadata 0 200 ''2'' ''0.25'']
           (init audio0))) = [odd_file]"
  by (simp add: odd_file_def handleFileUpload_def uploadOne_def accepts_def init_def url0_def
      onLoadedMetadata_def suffix_to_prefix)

text \<open>
  C5 (amended): a file enters the registry only if its type is \<open>audio/mpeg\<close> or
  \<open>audio/mp3\<close> or its name ends in \<open>.mp3\<close>; an upload of files none of which
  meets this condition leaves the whole state, and so the registry, unchanged, and no
  error is produced.
\<close>

theorem upload_filter:
  "(\<forall>t \<in> set (tracks (run es (init a))).
      file_type (track_file t) = ''audio/mpeg'' \<or> file_type (track_file t) = ''audio/mp3''
      \<or> suffix ''.mp3'' (file_name (track_file t)))
   \<and> ((\<forall>f \<in> set fs. \<not> (file_type f = ''audio/mpeg'' \<or> file_type f = ''audio/mp3''
          \<or> suffix ''.mp3'' (file_name f)))
        \<longrightarrow> handleFileUpload mk (Some fs) s = s)"
proof (rule conjI)
  show "\<forall>t \<in> set (tracks (run es (init a))).
      file_type (track_file t) = ''audio/mpeg'' \<or> file_type (track_file t) = ''audio/mp3''
      \<or> suffix ''.mp3'' (file_name (track_file t))"
    using admitted_run [OF admitted_init, of es a] by (simp add: admitted_def accepts_def)
next
  show "(\<forall>f \<in> set fs. \<not> (file_type f = ''audio/mpeg'' \<or> file_type f = ''audio/mp3''
          \<or> suffix ''.mp3'' (file_name f)))
        \<longrightarrow> handleFileUpload mk (Some fs) s = s"
  proof
    assume "\<forall>f \<in> set fs. \<not> (file_type f = ''audio/mpeg'' \<or> file_type f = ''audio/mp3''
          \<or> suffix ''.mp3'' (file_name f))"
    then have "filter accepts fs = []" by (simp add: accepts_def filter_empty_conv)
    then show "handleFileUpload mk (Some fs) s = s"
      by (simp add: handleFileUpload_def fold_uploadOne)
  qed
qed

theorem upload_filter_witness:
  "tracks loaded1 = [track1]
   \<and> accepts (track_file track1)
   \<and> \<not> accepts wav_file
   \<and> handleFileUpload url0 (Some [wav_file]) (init audio0) = init audio0
   \<and> tracks (handleFileUpload url0 (Some [wav_file]) (init audio0)) = []"
proof -
  have w: "\<forall>f \<in> set [wav_file]. \<not> (file_type f = ''audio/mpeg'' \<or> file_type f = ''audio/mp3''
          \<or> suffix ''.mp3'' (file_name f))"
    by (simp add: wav_file_def suffix_to_prefix)
  have u: "handleFileUpload url0 (Some [wav_file]) (init audio0) = init audio0"
    using upload_filter
      [of "[Upload url0 (Some [mp3_file]), LoadedMetadata 0 180 ''1'' ''0.5'']" audio0
        "[wav_file]" url0 "init audio0"] w
    by blast
  have t: "\<forall>t \<in> set (tracks loaded1).
        file_type (track_file t) = ''audio/mpeg'' \<or> file_type (track_file t) = ''audio/mp3''
        \<or> suffix ''.mp3'' (file_name (track_file t))"
    unfolding loaded1_def
    using upload_filter
      [of "[Upload url0 (Some [mp3_file]), LoadedMetadata 0 180 ''1'' ''0.5'']" audio0
        "[wav_file]" url0 "init audio0"]
    by blast
  have l: "tracks loaded1 = [track1]" by (simp add: loaded1_eq init_def)
  have "accepts (track_file track1)" using t l by (simp add: accepts_def)
  moreover have "\<not> accepts wav_file" using w by (simp add: accepts_def)
  ultimately show ?thesis using u l by (simp add: init_def)
qed

subsection \<open>Toggling\<close>

text \<open>
  C6: in a state with a media element, \<open>togglePlay\<close> negates \<open>isPlaying\<close> and keeps
  the element, and applying it twice gives back the original value of \<open>isPlaying\<close>.
\<close>

theorem togglePlay_twice:
  assumes "audioRef s \<noteq> None"
  shows "isPlaying (togglePlay s) = (\<not> isPlaying s)
    \<and> audioRef (togglePlay s) \<noteq> None
    \<and> isPlaying (togglePlay (togglePlay s)) = isPlaying s"
  using assms by (auto simp add: togglePlay_def initAudioContext_def split: option.splits)

theorem togglePlay_twice_witness:
  "audioRef playing1 \<noteq> None
   \<and> isPlaying playing1
   \<and> \<not> isPlaying (togglePlay playing1)
   \<and> isPlaying (togglePlay (togglePlay playing1))"
proof -
  have h: "audioRef playing1 \<noteq> None" by (simp add: playing1_eq init_def)
  have p: "isPlaying playing1" by (simp add: playing1_eq init_def)
  show ?thesis using togglePlay_twice [OF h] h p by simp
qed

subsection \<open>Removing a track\<close>

text \<open>
  C7: when track \<open>t\<close> is the current track, \<open>removeTrack\<close> of its id leaves in the
  registry exactly the tracks with another id, in their order, so \<open>t\<close> is gone; there
  is no current track afterwards and \<open>isPlaying\<close> is false.
\<close>

theorem removeTrack_current:
  assumes "currentTrack s = Some t"
  shows "tracks (removeTrack (track_id t) s) =
       filter (\<lambda>u. track_id u \<noteq> track_id t) (tracks s)
     \<and> t \<notin> set (tracks (removeTrack (track_id t) s))
     \<and> currentTrack (removeTrack (track_id t) s) = None
     \<and> isPlaying (removeTrack (track_id t) s) = False"
  using assms by (simp add: removeTrack_def is_current_def Let_def)

theorem removeTrack_current_witness:
  "currentTrack playing1 = Some track1
   \<and> tracks playing1 = [track1]
   \<and> tracks (removeTrack (track_id track1) playing1) = []
   \<and> currentTrack (removeTrack (track_id track1) playing1) = None
   \<and> \<not> isPlaying (removeTrack (track_id track1) playing1)"
proof -
  have h: "currentTrack playing1 = Some track1" by (simp add: playing1_eq init_def)
  have t: "tracks playing1 = [track1]" by (simp add: playing1_eq init_def)
  show ?thesis using removeTrack_current [OF h] h t by simp
qed

subsection \<open>Natural end of a track\<close>

text \<open>
  C8: the \<open>ended\<close> handler sets \<open>isPlaying\<close> to false and changes nothing else: the
  current track stays as it is, and so do the registry and the media element.
\<close>

theorem onEnded_pauses:
  "isPlaying (onEnded s) = False
   \<and> currentTrack (onEnded s) = currentTrack s
   \<and> tracks (onEnded s) = tracks s
   \<and> audioRef (onEnded s) = audioRef s
   \<and> onEnded s = s\<lparr>isPlaying := False\<rparr>"
  by (simp add: onEnded_def)

subsection \<open>Visualizer\<close>

text \<open>
  C9: the bars are computed from the snapshot and \<open>isPlaying\<close> alone, one bar for each
  entry. While playing, the height a bar is driven to is the larger of 4 and
  \<open>v / 255 * 100\<close> percent; while not playing it is 4 percent. An empty snapshot gives
  no bars and an all-zero snapshot bars of height 4.
\<close>

theorem renderBars_height:
  "length (renderBars playing snapshot) = length snapshot
   \<and> (\<forall>i < length snapshot.
        animate_height (renderBars playing snapshot ! i) =
          (if playing then max 4 ((snapshot ! i / 255) * 100) else 4))
   \<and> renderBars playing [] = []
   \<and> (\<forall>b \<in> set (renderBars playing (replicate n 0)). animate_height b = 4)"
  by (auto simp add: renderBars_def renderBar_def)

theorem renderBars_height_witness:
  "animate_height (renderBars True [0, 255, 51] ! 2) = 20
   \<and> animate_height (renderBars False [0, 255, 51] ! 2) = 4
   \<and> length (renderBars True [0, 255, 51]) = 3
   \<and> map animate_height (renderBars True (replicate 3 0)) = [4, 4, 4]"
proof -
  have "(2::nat) < length [0, 255, 51 :: real]" by simp
  then have "animate_height (renderBars p [0, 255, 51] ! 2) =
      (if p then max 4 (([0, 255, 51] ! 2 / 255) * 100) else 4)" for p
    using renderBars_height [of p "[0, 255, 51]" 3] by blast
  moreover have "map animate_height (renderBars True (replicate 3 0)) = [4, 4, 4]"
    by (simp add: renderBars_def renderBar_def numeral_3_eq_3)
  ultimately show ?thesis using renderBars_height [of True "[0, 255, 51]" 3] by simp
qed

subsection \<open>Removing another track\<close>

text \<open>
  C10: when \<open>x\<close> is not the id of the current track, \<open>removeTrack x\<close> changes only the
  registry, which keeps exactly the tracks whose id is not \<open>x\<close>, in their order; the
  current track, \<open>isPlaying\<close>, the progress and the volume are unchanged.
\<close>

theorem removeTrack_other:
  assumes "\<not> is_current s x"
  shows "removeTrack x s = s\<lparr>tracks := filter (\<lambda>u. track_id u \<noteq> x) (tracks s)\<rparr>
     \<and> (\<forall>u. u \<in> set (tracks (removeTrack x s)) \<longleftrightarrow> u \<in> set (tracks s) \<and> track_id u \<noteq> x)
     \<and> currentTrack (removeTrack x s) = currentTrack s
     \<and> isPlaying (removeTrack x s) = isPlaying s
     \<and> progress (removeTrack x s) = progress s
     \<and> volume (removeTrack x s) = volume s"
  using assms by (auto simp add: removeTrack_def Let_def)

theorem removeTrack_other_witness:
  "\<not> is_current playing1 ''2-0.25''
   \<and> removeTrack ''2-0.25'' playing1 = playing1
   \<and> \<not> is_current loaded1 (track_id track1)
   \<and> tracks (removeTrack (track_id track1) loaded1) = []
   \<and> currentTrack (removeTrack (track_id track1) loaded1) = currentTrack loaded1"
proof -
  have h: "\<not> is_current playing1 ''2-0.25''"
    by (simp add: playing1_eq is_current_def init_def track1_def)
  have k: "\<not> is_current loaded1 (track_id track1)"
    by (simp add: loaded1_eq is_current_def init_def)
  have "filter (\<lambda>u. track_id u \<noteq> ''2-0.25'') (tracks playing1) = tracks playing1"
    by (simp add: playing1_eq init_def track1_def)
  then have "removeTrack ''2-0.25'' playing1 = playing1"
    using removeTrack_other [OF h] by simp
  moreover have "tracks (removeTrack (track_id track1) loaded1) = []"
    using removeTrack_other [OF k] by (simp add: loaded1_eq init_def)
  ultimately show ?thesis using h k removeTrack_other [OF k] by simp
qed

end
